theory Spec2Isabelle
  imports Main "HOL-Library.AList" "HOL-Library.Sublist"
begin

section \<open>MiniFS: an in-memory tree of files and directories\<close>

text \<open>
  The development embeds the store of \<^verbatim>\<open>src/index.ts\<close> (class \<^verbatim>\<open>MiniFS\<close>) and, for the
  write path, the later variant of the same class that routes \<^verbatim>\<open>writeFile\<close> and
  \<^verbatim>\<open>writeFileWithCallback\<close> through the private method \<^verbatim>\<open>_writeFile\<close>.

  The tree is mutated in place by the source and owned by the store alone, so the
  embedding passes the tree explicitly: every operation takes the store and returns its
  outcome together with the store afterwards. A raised exception is the outcome
  \<open>Inl e\<close>; the store returned with it is the store as the exception leaves it.
\<close>

subsection \<open>Nodes\<close>

text \<open>
  \<^verbatim>\<open>File\<close> carries \<^verbatim>\<open>name\<close>, the optional \<^verbatim>\<open>content\<close> and the auxiliary \<^verbatim>\<open>data\<close> slot;
  \<^verbatim>\<open>Directory\<close> carries its \<^verbatim>\<open>content\<close> object and the \<^verbatim>\<open>data\<close> slot, and in the callback
  variant also a \<^verbatim>\<open>name\<close> (absent in \<^verbatim>\<open>src/index.ts\<close>, hence optional here).

  \<^item> A file's \<^verbatim>\<open>content\<close> is of the unconstrained type \<^verbatim>\<open>TFileContent\<close>: it is
    \<^verbatim>\<open>undefined\<close> (here \<open>None\<close>), \<^verbatim>\<open>null\<close> (here \<open>Some Null\<close>) or any other value
    (\<open>Some (Value v)\<close>).
  \<^item> A \<^verbatim>\<open>data\<close> of \<open>None\<close> is the value a freshly constructed node carries (\<^verbatim>\<open>{}\<close> in
    \<^verbatim>\<open>src/index.ts\<close>, \<^verbatim>\<open>undefined\<close> in the callback variant); the store never reads it.
  \<^item> A directory's \<^verbatim>\<open>content\<close> object is the list of its own properties in insertion
    order, each name once (\<open>set_prop\<close> and \<open>delete_prop\<close> keep it so). Lookup takes
    the first pair with the key, as \<open>map_of\<close> does.
  \<^item> Strings are lists of characters; splitting and comparing work on code units in
    the source and on characters here.
\<close>

datatype 'c payload = Null | Value 'c

datatype ('c, 'd) entry =
    File string "'c payload option" "'d option"
  | Directory "string option" "(string \<times> ('c, 'd) entry) list" "'d option"

type_synonym ('c, 'd) DirectoryContent = "(string \<times> ('c, 'd) entry) list"

fun isFile :: "('c, 'd) entry \<Rightarrow> bool" where
  "isFile (File n c d) = True"
| "isFile (Directory n c d) = False"

fun isDirectory :: "('c, 'd) entry \<Rightarrow> bool" where
  "isDirectory (File n c d) = False"
| "isDirectory (Directory n c d) = True"

subsection \<open>Property access on a content object\<close>

text \<open>
  A content object is created as \<^verbatim>\<open>{}\<close>, so it inherits from \<^verbatim>\<open>Object.prototype\<close>. The
  source tests membership with the \<^verbatim>\<open>in\<close> operator, which also finds inherited
  properties, and then reads \<^verbatim>\<open>dir.content[pathSegment]\<close>, which for such a name yields
  a value that is no entry of the tree (a built-in function or the prototype object).
  \<open>Object_prototype\<close> lists the property names of \<^verbatim>\<open>Object.prototype\<close> (ECMAScript,
  with Annex B).
\<close>

definition Object_prototype :: "string list" where
  "Object_prototype =
     [''constructor'', ''hasOwnProperty'', ''isPrototypeOf'', ''propertyIsEnumerable'',
      ''toLocaleString'', ''toString'', ''valueOf'', ''__proto__'',
      ''__defineGetter__'', ''__defineSetter__'', ''__lookupGetter__'', ''__lookupSetter__'']"

text \<open>
  The values a property read can give: an entry of the tree, an inherited value of
  \<^verbatim>\<open>Object.prototype\<close> (named by its property), or \<^verbatim>\<open>undefined\<close>.
\<close>

datatype ('c, 'd) jsval =
    Ent "('c, 'd) entry"
  | Proto string
  | Undefined

definition has_prop :: "('c, 'd) DirectoryContent \<Rightarrow> string \<Rightarrow> bool" where
  \<comment> \<open>\<^verbatim>\<open>k in content\<close>\<close>
  "has_prop c k = (case map_of c k of Some e \<Rightarrow> True | None \<Rightarrow> k \<in> set Object_prototype)"

definition get_prop :: "('c, 'd) DirectoryContent \<Rightarrow> string \<Rightarrow> ('c, 'd) jsval" where
  \<comment> \<open>\<^verbatim>\<open>content[k]\<close>\<close>
  "get_prop c k =
     (case map_of c k of
        Some e \<Rightarrow> Ent e
      | None \<Rightarrow> if k \<in> set Object_prototype then Proto k else Undefined)"

definition set_prop ::
  "('c, 'd) DirectoryContent \<Rightarrow> string \<Rightarrow> ('c, 'd) entry \<Rightarrow> ('c, 'd) DirectoryContent" where
  \<comment> \<open>\<^verbatim>\<open>content[k] = e\<close>: an existing own property keeps its place, a new one goes last\<close>
  "set_prop c k e = AList.update k e c"

definition delete_prop :: "('c, 'd) DirectoryContent \<Rightarrow> string \<Rightarrow> ('c, 'd) DirectoryContent" where
  \<comment> \<open>\<^verbatim>\<open>delete content[k]\<close>: removes an own property, never an inherited one\<close>
  "delete_prop c k = AList.delete k c"

text \<open>
  \<^verbatim>\<open>Object.keys\<close> lists the own property names: first the array indices (canonical
  decimal numerals up to 4294967294) in ascending order, then every other name in
  insertion order.
\<close>

definition decimal :: "string \<Rightarrow> int" where
  "decimal s = foldl (\<lambda>n ch. 10 * n + (of_char ch - 48)) 0 s"

definition array_index :: "string \<Rightarrow> int option" where
  "array_index s =
     (if s \<noteq> [] \<and> list_all (\<lambda>ch. ch \<in> set ''0123456789'') s
         \<and> (s = ''0'' \<or> hd s \<noteq> CHR ''0'') \<and> decimal s \<le> 4294967294
      then Some (decimal s) else None)"

definition Object_entries :: "(string \<times> 'a) list \<Rightarrow> (string \<times> 'a) list" where
  "Object_entries c =
     sort_key (\<lambda>(k, v). the (array_index k)) (filter (\<lambda>(k, v). array_index k \<noteq> None) c)
     @ filter (\<lambda>(k, v). array_index k = None) c"

definition Object_keys :: "(string \<times> 'a) list \<Rightarrow> string list" where
  "Object_keys c = map fst (Object_entries c)"

subsection \<open>Paths\<close>

text \<open>A \<^verbatim>\<open>Path\<close> is a string or an array of segments; \<^verbatim>\<open>rootPath\<close> is the empty array.\<close>

datatype Path = Str string | Segs "string list"

definition rootPath :: Path where
  "rootPath = Segs []"

text \<open>\<^verbatim>\<open>String.prototype.split\<close> with a one-character separator.\<close>

fun js_split :: "char \<Rightarrow> string \<Rightarrow> string list" where
  "js_split sep [] = [[]]"
| "js_split sep (ch # s) =
     (if ch = sep then [] # js_split sep s
      else (case js_split sep s of
              seg # segs \<Rightarrow> (ch # seg) # segs
            | [] \<Rightarrow> [[ch]]))"

definition pathAsSegments :: "Path \<Rightarrow> string list" where
  "pathAsSegments path = (case path of Str s \<Rightarrow> js_split CHR ''/'' s | Segs segs \<Rightarrow> segs)"

text \<open>\<^verbatim>\<open>Array.prototype.join\<close>, and the text a path takes inside a template string.\<close>

fun join :: "string \<Rightarrow> string list \<Rightarrow> string" where
  "join sep [] = []"
| "join sep [x] = x"
| "join sep (x # y # ys) = x @ sep @ join sep (y # ys)"

definition path_text :: "Path \<Rightarrow> string" where
  "path_text path = (case path of Str s \<Rightarrow> s | Segs segs \<Rightarrow> join '','' segs)"

subsection \<open>Options and errors\<close>

text \<open>
  An optional property of an options object is absent, explicitly \<^verbatim>\<open>undefined\<close>, or
  given. The source merges the options over the defaults with object spread, which
  copies an explicit \<^verbatim>\<open>undefined\<close> over the default, and then tests the result for
  truthiness.
\<close>

datatype 'a optional = Absent | Undef | Given 'a

record WriteOptions =
  recursive :: "bool optional"

record ReadOptions =
  returnEntry :: "bool optional"

definition merged_recursive :: "WriteOptions option \<Rightarrow> bool" where
  \<comment> \<open>\<^verbatim>\<open>{ recursive: true, ...options }.recursive\<close>, as a condition\<close>
  "merged_recursive options =
     (case options of
        None \<Rightarrow> True
      | Some opts \<Rightarrow> (case recursive opts of Absent \<Rightarrow> True | Undef \<Rightarrow> False | Given b \<Rightarrow> b))"

definition merged_returnEntry :: "ReadOptions option \<Rightarrow> bool" where
  \<comment> \<open>\<^verbatim>\<open>{ returnEntry: false, ...options }.returnEntry\<close>, as a condition\<close>
  "merged_returnEntry options =
     (case options of
        None \<Rightarrow> False
      | Some opts \<Rightarrow> (case returnEntry opts of Absent \<Rightarrow> False | Undef \<Rightarrow> False | Given b \<Rightarrow> b))"

text \<open>
  An \<^verbatim>\<open>Error\<close> of the store is recorded with the tag between the square brackets of
  its message, the kind of failure, and the text interpolated into the message. A
  \<open>TypeError\<close> is the one the JavaScript runtime raises when \<^verbatim>\<open>in\<close> or \<^verbatim>\<open>Object.keys\<close>
  is applied to \<^verbatim>\<open>undefined\<close>, or a missing method is called.
\<close>

datatype failure = DoesNotExist | IsAFile | IsADirectory | HasNoContent

datatype error = Error string failure string | TypeError

subsection \<open>The store\<close>

record ('c, 'd) MiniFS =
  files :: "('c, 'd) entry"
  preferErrors :: bool

definition new_MiniFS :: "bool option \<Rightarrow> ('c, 'd) MiniFS" where
  \<comment> \<open>the constructor of \<^verbatim>\<open>src/index.ts\<close>; the argument is \<^verbatim>\<open>options?.preferErrors\<close>\<close>
  "new_MiniFS pe =
     \<lparr>files = Directory None [] None,
      preferErrors = (case pe of None \<Rightarrow> False | Some b \<Rightarrow> b)\<rparr>"

definition new_MiniFS_cb :: "bool option \<Rightarrow> ('c, 'd) MiniFS" where
  \<comment> \<open>the constructor of the callback variant: the root directory is named \<^verbatim>\<open>""\<close>\<close>
  "new_MiniFS_cb pe =
     \<lparr>files = Directory (Some []) [] None,
      preferErrors = (case pe of None \<Rightarrow> False | Some b \<Rightarrow> b)\<rparr>"

subsection \<open>Walking down the tree\<close>

text \<open>
  The mutating operations share one loop shape: \<^verbatim>\<open>let dir = this.files\<close>, then for every
  segment a block for the missing segment, the read \<^verbatim>\<open>nextEntry = dir.content[seg]\<close>,
  the \<^verbatim>\<open>instanceof File\<close> test and \<^verbatim>\<open>dir = nextEntry\<close>. The loop is a recursion on the
  remaining segments; it returns the outcome and the directory it was started on, as
  the assignments leave it. A block either returns from the method or falls through.
\<close>

datatype ('r, 's) flow = Return 'r | Continue 's

text \<open>
  When \<^verbatim>\<open>nextEntry\<close> is no entry of the tree it is no \<^verbatim>\<open>File\<close> either, so it becomes
  \<^verbatim>\<open>dir\<close>. With no segment left the loop ends and the method returns \<^verbatim>\<open>true\<close>; with a
  segment left, the next \<^verbatim>\<open>in dir.content\<close> is applied to \<^verbatim>\<open>undefined\<close> and raises.
\<close>

definition leave_tree :: "string list \<Rightarrow> error + bool" where
  "leave_tree path = (if path = [] then Inr True else Inl TypeError)"

subsection \<open>createDirectory\<close>

definition createDirectory_missing ::
  "bool \<Rightarrow> bool \<Rightarrow> ('c, 'd) DirectoryContent \<Rightarrow> string
     \<Rightarrow> ((error + bool) \<times> ('c, 'd) DirectoryContent, ('c, 'd) DirectoryContent) flow" where
  "createDirectory_missing pe rec c seg =
     (if rec then Continue (set_prop c seg (Directory None [] None))
      else if pe then Return (Inl (Error ''MiniFS.createDirectory'' DoesNotExist seg), c)
      else Return (Inr False, c))"

text \<open>
  The second equation is outside the source's types (\<^verbatim>\<open>files\<close> is a \<^verbatim>\<open>Directory\<close> and the
  loop never advances into a \<^verbatim>\<open>File\<close>): there \<^verbatim>\<open>in\<close> would be applied to a file's payload.
\<close>

fun createDirectory_loop ::
  "bool \<Rightarrow> bool \<Rightarrow> ('c, 'd) entry \<Rightarrow> string list \<Rightarrow> (error + bool) \<times> ('c, 'd) entry" where
  "createDirectory_loop pe rec dir [] = (Inr True, dir)"
| "createDirectory_loop pe rec (File n fc d) (seg # path) = (Inl TypeError, File n fc d)"
| "createDirectory_loop pe rec (Directory n c d) (seg # path) =
     (case (if \<not> has_prop c seg then createDirectory_missing pe rec c seg else Continue c) of
        Return (r, c') \<Rightarrow> (r, Directory n c' d)
      | Continue c' \<Rightarrow>
          (case get_prop c' seg of
             Ent (File fn fc fd) \<Rightarrow>
               (if pe then (Inl (Error ''MiniFS.createDirectory'' IsAFile seg), Directory n c' d)
                else (Inr False, Directory n c' d))
           | Ent nextEntry \<Rightarrow>
               (case createDirectory_loop pe rec nextEntry path of
                  (r, nextEntry') \<Rightarrow> (r, Directory n (set_prop c' seg nextEntry') d))
           | nextEntry \<Rightarrow> (leave_tree path, Directory n c' d)))"

definition createDirectory ::
  "('c, 'd) MiniFS \<Rightarrow> Path \<Rightarrow> WriteOptions option \<Rightarrow> (error + bool) \<times> ('c, 'd) MiniFS" where
  "createDirectory fs path options =
     (case createDirectory_loop (preferErrors fs) (merged_recursive options) (files fs)
             (pathAsSegments path) of
        (r, dir) \<Rightarrow> (r, fs\<lparr>files := dir\<rparr>))"

subsection \<open>readEntry, readDirectory, readFile\<close>

text \<open>
  \<^verbatim>\<open>readEntry\<close> returns the value the path leads to, or \<^verbatim>\<open>null\<close> (here \<open>None\<close>). The second
  argument of the loop is the whole segment array, which one message interpolates.
\<close>

fun readEntry_loop ::
  "bool \<Rightarrow> string list \<Rightarrow> ('c, 'd) jsval \<Rightarrow> string list \<Rightarrow> error + ('c, 'd) jsval option" where
  "readEntry_loop pe whole entry [] = Inr (Some entry)"
| "readEntry_loop pe whole (Ent (File n fc d)) (seg # path) =
     (if pe then Inl (Error ''MiniFS.readEntry'' IsAFile (join '','' whole)) else Inr None)"
| "readEntry_loop pe whole (Ent (Directory n c d)) (seg # path) =
     (if \<not> has_prop c seg then
        (if pe then Inl (Error ''MiniFS.readEntry'' DoesNotExist seg) else Inr None)
      else readEntry_loop pe whole (get_prop c seg) path)"
| "readEntry_loop pe whole (Proto k) (seg # path) = Inl TypeError"
| "readEntry_loop pe whole Undefined (seg # path) = Inl TypeError"

definition readEntry :: "('c, 'd) MiniFS \<Rightarrow> Path \<Rightarrow> error + ('c, 'd) jsval option" where
  "readEntry fs path =
     readEntry_loop (preferErrors fs) (pathAsSegments path) (Ent (files fs)) (pathAsSegments path)"

text \<open>What \<^verbatim>\<open>readDirectory\<close> returns besides \<^verbatim>\<open>null\<close>: the names, or the value itself.\<close>

datatype ('c, 'd) listing = Names "string list" | DirectoryEntry "('c, 'd) jsval"

definition readDirectory ::
  "('c, 'd) MiniFS \<Rightarrow> Path \<Rightarrow> ReadOptions option
     \<Rightarrow> (error + ('c, 'd) listing option) \<times> ('c, 'd) MiniFS" where
  "readDirectory fs path options =
     (case readEntry fs path of
        Inl e \<Rightarrow> (Inl e, fs)
      | Inr entry \<Rightarrow>
          (case entry of
             Some (Ent (File n fc d)) \<Rightarrow>
               (if preferErrors fs
                then (Inl (Error ''MiniFS.readDirectory'' IsAFile (path_text path)), fs)
                else (Inr None, fs))
           | Some (Ent (Directory n c d)) \<Rightarrow>
               (if merged_returnEntry options
                then (Inr (Some (DirectoryEntry (Ent (Directory n c d)))), fs)
                else (Inr (Some (Names (Object_keys c))), fs))
           | Some (Proto k) \<Rightarrow>
               (if merged_returnEntry options
                then (Inr (Some (DirectoryEntry (Proto k))), fs)
                else (Inl TypeError, fs))
           | _ \<Rightarrow>
               (if preferErrors fs
                then (Inl (Error ''MiniFS.readDirectory'' DoesNotExist (path_text path)), fs)
                else (Inr None, fs))))"

text \<open>
  The test \<^verbatim>\<open>entry.content == undefined\<close> uses loose equality, which holds of
  \<^verbatim>\<open>undefined\<close> and of \<^verbatim>\<open>null\<close> and of nothing else.
\<close>

fun loosely_undefined :: "'c payload option \<Rightarrow> bool" where
  "loosely_undefined None = True"
| "loosely_undefined (Some Null) = True"
| "loosely_undefined (Some (Value v)) = False"

text \<open>
  What \<^verbatim>\<open>readFile\<close> returns besides \<^verbatim>\<open>null\<close>: \<^verbatim>\<open>entry.content\<close> as it is stored, or the
  file itself.
\<close>

datatype ('c, 'd) reading = Content "'c payload option" | FileEntry "('c, 'd) entry"

definition readFile ::
  "('c, 'd) MiniFS \<Rightarrow> Path \<Rightarrow> ReadOptions option
     \<Rightarrow> (error + ('c, 'd) reading option) \<times> ('c, 'd) MiniFS" where
  "readFile fs path options =
     (case readEntry fs path of
        Inl e \<Rightarrow> (Inl e, fs)
      | Inr entry \<Rightarrow>
          (case entry of
             Some (Ent (File n fc d)) \<Rightarrow>
               (if loosely_undefined fc then
                  (if preferErrors fs
                   then (Inl (Error ''MiniFS.readFile'' HasNoContent (path_text path)), fs)
                   else (Inr None, fs))
                else if merged_returnEntry options
                then (Inr (Some (FileEntry (File n fc d))), fs)
                else (Inr (Some (Content fc)), fs))
           | Some (Ent (Directory n c d)) \<Rightarrow>
               (if preferErrors fs
                then (Inl (Error ''MiniFS.readFile'' IsADirectory (path_text path)), fs)
                else (Inr None, fs))
           | Some (Proto k) \<Rightarrow>
               (if preferErrors fs
                then (Inl (Error ''MiniFS.readFile'' IsADirectory (path_text path)), fs)
                else (Inr None, fs))
           | _ \<Rightarrow>
               (if preferErrors fs
                then (Inl (Error ''MiniFS.readFile'' DoesNotExist (path_text path)), fs)
                else (Inr None, fs))))"

subsection \<open>writeFile\<close>

text \<open>\<^verbatim>\<open>isLastSegment\<close> is \<^verbatim>\<open>i == path.length - 1\<close>: no segment remains after this one.\<close>

definition writeFile_missing ::
  "bool \<Rightarrow> bool \<Rightarrow> 'c payload option \<Rightarrow> bool \<Rightarrow> ('c, 'd) DirectoryContent \<Rightarrow> string
     \<Rightarrow> ((error + bool) \<times> ('c, 'd) DirectoryContent, ('c, 'd) DirectoryContent) flow" where
  "writeFile_missing pe rec content isLastSegment c seg =
     (if rec then
        (if isLastSegment then Return (Inr True, set_prop c seg (File seg content None))
         else Continue (set_prop c seg (Directory None [] None)))
      else if pe then Return (Inl (Error ''MiniFS.writeFile'' DoesNotExist seg), c)
      else Return (Inr False, c))"

fun writeFile_loop ::
  "bool \<Rightarrow> bool \<Rightarrow> 'c payload option \<Rightarrow> ('c, 'd) entry \<Rightarrow> string list
     \<Rightarrow> (error + bool) \<times> ('c, 'd) entry" where
  "writeFile_loop pe rec content dir [] = (Inr True, dir)"
| "writeFile_loop pe rec content (File n fc d) (seg # path) = (Inl TypeError, File n fc d)"
| "writeFile_loop pe rec content (Directory n c d) (seg # path) =
     (case (if \<not> has_prop c seg then writeFile_missing pe rec content (path = []) c seg
            else Continue c) of
        Return (r, c') \<Rightarrow> (r, Directory n c' d)
      | Continue c' \<Rightarrow>
          (case get_prop c' seg of
             Ent (File fn fc fd) \<Rightarrow>
               (if pe then (Inl (Error ''MiniFS.writeFile'' IsAFile seg), Directory n c' d)
                else (Inr False, Directory n c' d))
           | Ent nextEntry \<Rightarrow>
               (case writeFile_loop pe rec content nextEntry path of
                  (r, nextEntry') \<Rightarrow> (r, Directory n (set_prop c' seg nextEntry') d))
           | nextEntry \<Rightarrow> (leave_tree path, Directory n c' d)))"

definition writeFile ::
  "('c, 'd) MiniFS \<Rightarrow> Path \<Rightarrow> 'c payload option \<Rightarrow> WriteOptions option
     \<Rightarrow> (error + bool) \<times> ('c, 'd) MiniFS" where
  "writeFile fs path content options =
     (case writeFile_loop (preferErrors fs) (merged_recursive options) content (files fs)
             (pathAsSegments path) of
        (r, dir) \<Rightarrow> (r, fs\<lparr>files := dir\<rparr>))"

subsection \<open>remove\<close>

text \<open>\<^verbatim>\<open>remove\<close> is the same method in \<^verbatim>\<open>src/index.ts\<close> and in the callback variant.\<close>

fun remove_loop ::
  "bool \<Rightarrow> ('c, 'd) entry \<Rightarrow> string list \<Rightarrow> (error + bool) \<times> ('c, 'd) entry" where
  "remove_loop pe dir [] = (Inr True, dir)"
| "remove_loop pe (File n fc d) (seg # path) = (Inl TypeError, File n fc d)"
| "remove_loop pe (Directory n c d) (seg # path) =
     (if \<not> has_prop c seg then
        (if pe then (Inl (Error ''MiniFS.removeDirectory'' DoesNotExist seg), Directory n c d)
         else (Inr False, Directory n c d))
      else
        (case get_prop c seg of
           Ent (File fn fc fd) \<Rightarrow>
             (if pe then (Inl (Error ''MiniFS.removeDirectory'' IsAFile seg), Directory n c d)
              else (Inr False, Directory n c d))
         | nextEntry \<Rightarrow>
             (if path = [] then (Inr True, Directory n (delete_prop c seg) d)
              else
                (case nextEntry of
                   Ent nextDir \<Rightarrow>
                     (case remove_loop pe nextDir path of
                        (r, nextDir') \<Rightarrow> (r, Directory n (set_prop c seg nextDir') d))
                 | _ \<Rightarrow> (Inl TypeError, Directory n c d)))))"

definition remove :: "('c, 'd) MiniFS \<Rightarrow> Path \<Rightarrow> (error + bool) \<times> ('c, 'd) MiniFS" where
  "remove fs path =
     (case remove_loop (preferErrors fs) (files fs) (pathAsSegments path) of
        (r, dir) \<Rightarrow> (r, fs\<lparr>files := dir\<rparr>))"

subsection \<open>The callback variant of writeFile\<close>

text \<open>
  In the later variant \<^verbatim>\<open>writeFile\<close> and \<^verbatim>\<open>writeFileWithCallback\<close> both call the private
  \<^verbatim>\<open>_writeFile\<close> with a callback that is handed the \<^verbatim>\<open>File\<close> and assigns to its fields.
  A callback is embedded as the function from the file's fields before the call to its
  fields after it.
\<close>

type_synonym ('c, 'd) WriteCallback =
  "string \<times> 'c payload option \<times> 'd option
     \<Rightarrow> string \<times> 'c payload option \<times> 'd option"

fun callback_on :: "('c, 'd) WriteCallback \<Rightarrow> ('c, 'd) entry \<Rightarrow> ('c, 'd) entry" where
  "callback_on callback (File n fc d) =
     (case callback (n, fc, d) of (n', fc', d') \<Rightarrow> File n' fc' d')"
| "callback_on callback (Directory n c d) = Directory n c d"

text \<open>
  The block for a missing segment, as the source has it: inside it, for the last
  segment, the source tests \<^verbatim>\<open>pathSegment in dir.content\<close> once more and, in that branch,
  runs the callback on an existing file or reports a directory.
\<close>

definition writeFile_private_missing ::
  "bool \<Rightarrow> ('c, 'd) WriteCallback \<Rightarrow> bool \<Rightarrow> string list \<Rightarrow> bool
     \<Rightarrow> ('c, 'd) DirectoryContent \<Rightarrow> string
     \<Rightarrow> ((error + bool) \<times> ('c, 'd) DirectoryContent, ('c, 'd) DirectoryContent) flow" where
  "writeFile_private_missing pe callback rec whole isLastSegment c seg =
     (if rec then
        (if isLastSegment then
           (if has_prop c seg then
              (case get_prop c seg of
                 Ent entry \<Rightarrow>
                   (if isFile entry then Return (Inr True, set_prop c seg (callback_on callback entry))
                    else if pe
                    then Return (Inl (Error ''MiniFS._writeFile'' IsADirectory (join ''/'' whole)), c)
                    else Return (Inr False, c))
               | _ \<Rightarrow> Return (Inl TypeError, c))
            else
              Return (Inr True, set_prop c seg (callback_on callback (File seg None None))))
         else Continue (set_prop c seg (Directory (Some seg) [] None)))
      else if pe then Return (Inl (Error ''MiniFS._writeFile'' DoesNotExist seg), c)
      else Return (Inr False, c))"

fun writeFile_private_loop ::
  "bool \<Rightarrow> ('c, 'd) WriteCallback \<Rightarrow> bool \<Rightarrow> string list \<Rightarrow> ('c, 'd) entry \<Rightarrow> string list
     \<Rightarrow> (error + bool) \<times> ('c, 'd) entry" where
  "writeFile_private_loop pe callback rec whole dir [] = (Inr True, dir)"
| "writeFile_private_loop pe callback rec whole (File n fc d) (seg # path) =
     (Inl TypeError, File n fc d)"
| "writeFile_private_loop pe callback rec whole (Directory n c d) (seg # path) =
     (case (if \<not> has_prop c seg
            then writeFile_private_missing pe callback rec whole (path = []) c seg
            else Continue c) of
        Return (r, c') \<Rightarrow> (r, Directory n c' d)
      | Continue c' \<Rightarrow>
          (case get_prop c' seg of
             Ent (File fn fc fd) \<Rightarrow>
               (if pe then (Inl (Error ''MiniFS._writeFile'' IsAFile seg), Directory n c' d)
                else (Inr False, Directory n c' d))
           | Ent nextEntry \<Rightarrow>
               (case writeFile_private_loop pe callback rec whole nextEntry path of
                  (r, nextEntry') \<Rightarrow> (r, Directory n (set_prop c' seg nextEntry') d))
           | nextEntry \<Rightarrow> (leave_tree path, Directory n c' d)))"

definition writeFile_private ::
  "('c, 'd) MiniFS \<Rightarrow> string list \<Rightarrow> ('c, 'd) WriteCallback \<Rightarrow> bool
     \<Rightarrow> (error + bool) \<times> ('c, 'd) MiniFS" where
  \<comment> \<open>\<^verbatim>\<open>_writeFile(path, callback, options)\<close>, the last argument being \<^verbatim>\<open>options.recursive\<close>\<close>
  "writeFile_private fs path callback rec =
     (case writeFile_private_loop (preferErrors fs) callback rec path (files fs) path of
        (r, dir) \<Rightarrow> (r, fs\<lparr>files := dir\<rparr>))"

definition writeFile_cb ::
  "('c, 'd) MiniFS \<Rightarrow> Path \<Rightarrow> 'c payload option \<Rightarrow> WriteOptions option
     \<Rightarrow> (error + bool) \<times> ('c, 'd) MiniFS" where
  \<comment> \<open>\<^verbatim>\<open>writeFile\<close> of the callback variant: the callback is \<^verbatim>\<open>file.content = content\<close>\<close>
  "writeFile_cb fs path content options =
     writeFile_private fs (pathAsSegments path) (\<lambda>(n, fc, d). (n, content, d))
       (merged_recursive options)"

definition writeFileWithCallback ::
  "('c, 'd) MiniFS \<Rightarrow> Path \<Rightarrow> ('c, 'd) WriteCallback \<Rightarrow> WriteOptions option
     \<Rightarrow> (error + bool) \<times> ('c, 'd) MiniFS" where
  "writeFileWithCallback fs path callback options =
     writeFile_private fs (pathAsSegments path) callback (merged_recursive options)"

subsection \<open>walk\<close>

text \<open>
  The generator yields, for every own property of the directory in \<^verbatim>\<open>Object.entries\<close>
  order, the pair of path and entry, followed by the walk of the entry when it is a
  directory. The embedding gives the list of everything yielded; it assigns nothing.
\<close>

fun walk :: "('c, 'd) entry \<Rightarrow> string list \<Rightarrow> (string list \<times> ('c, 'd) entry) list" where
  "walk (File n fc d) path = []"
| "walk (Directory n c d) path =
     concat (map (\<lambda>(name, entry, below). (path @ [name], entry) # below (path @ [name]))
                 (Object_entries (map (\<lambda>(name, entry). (name, entry, walk entry)) c)))"

text \<open>
  Called without arguments, \<^verbatim>\<open>walk\<close> starts at \<^verbatim>\<open>this.files\<close> with the empty path. (The
  first equation of \<open>walk\<close> is the skipped recursion for a \<^verbatim>\<open>File\<close> entry.)
\<close>

definition walk_files ::
  "('c, 'd) MiniFS \<Rightarrow> (string list \<times> ('c, 'd) entry) list \<times> ('c, 'd) MiniFS" where
  "walk_files fs = (walk (files fs) [], fs)"

subsection \<open>Sequences of public operations\<close>

text \<open>
  A caller of the store performs public operations one after the other, whatever each
  of them returns or raises; \<open>perform\<close> gives the store an operation leaves behind.
\<close>

datatype 'c operation =
    CreateDirectory Path "WriteOptions option"
  | ReadDirectory Path "ReadOptions option"
  | ReadFile Path "ReadOptions option"
  | WriteFile Path "'c payload option" "WriteOptions option"
  | Remove Path
  | Walk

fun perform :: "'c operation \<Rightarrow> ('c, 'd) MiniFS \<Rightarrow> ('c, 'd) MiniFS" where
  "perform (CreateDirectory path options) fs = snd (createDirectory fs path options)"
| "perform (ReadDirectory path options) fs = snd (readDirectory fs path options)"
| "perform (ReadFile path options) fs = snd (readFile fs path options)"
| "perform (WriteFile path content options) fs = snd (writeFile fs path content options)"
| "perform (Remove path) fs = snd (remove fs path)"
| "perform Walk fs = snd (walk_files fs)"

section \<open>Properties\<close>

subsection \<open>Property access\<close>

lemma get_prop_set_same: "get_prop (set_prop c k e) k = Ent e"
  by (simp add: get_prop_def set_prop_def update_conv')

lemma has_prop_set_same: "has_prop (set_prop c k e) k"
  by (simp add: has_prop_def set_prop_def update_conv')

lemma get_prop_set_other: "k' \<noteq> k \<Longrightarrow> get_prop (set_prop c k e) k' = get_prop c k'"
  by (simp add: get_prop_def set_prop_def update_conv')

lemma has_prop_set_other: "k' \<noteq> k \<Longrightarrow> has_prop (set_prop c k e) k' = has_prop c k'"
  by (simp add: has_prop_def set_prop_def update_conv')

lemma get_prop_delete_other: "k' \<noteq> k \<Longrightarrow> get_prop (delete_prop c k) k' = get_prop c k'"
  by (simp add: get_prop_def delete_prop_def delete_conv')

lemma has_prop_delete_other: "k' \<noteq> k \<Longrightarrow> has_prop (delete_prop c k) k' = has_prop c k'"
  by (simp add: has_prop_def delete_prop_def delete_conv')

lemma get_prop_delete_same: "get_prop (delete_prop c k) k \<noteq> Ent e"
  by (simp add: get_prop_def delete_prop_def delete_conv')

lemma set_prop_same_value: "get_prop c k = Ent e \<Longrightarrow> set_prop c k e = c"
  by (auto simp: get_prop_def set_prop_def update_triv split: option.splits if_splits)

lemma get_prop_Ent_has_prop: "get_prop c k = Ent e \<Longrightarrow> has_prop c k"
  by (auto simp: get_prop_def has_prop_def split: option.splits if_splits)

lemma has_prop_not_Undefined: "has_prop c k \<Longrightarrow> get_prop c k \<noteq> Undefined"
  by (auto simp: get_prop_def has_prop_def split: option.splits if_splits)

lemma get_prop_Proto: "get_prop c k = Proto k' \<Longrightarrow> k' = k \<and> k \<in> set Object_prototype"
  by (auto simp: get_prop_def split: option.splits if_splits)

lemma has_prop_Nil: "has_prop [] k = (k \<in> set Object_prototype)"
  by (simp add: has_prop_def)

lemma get_prop_Nil: "get_prop [] k = (if k \<in> set Object_prototype then Proto k else Undefined)"
  by (simp add: get_prop_def)

subsection \<open>Path normalisation\<close>

lemma js_split_not_Nil: "js_split sep s \<noteq> []"
  by (induction s) (auto split: list.splits)

lemma join_js_split: "join [sep] (js_split sep s) = s"
proof (induction s)
  case Nil
  show ?case by simp
next
  case (Cons ch s)
  obtain seg segs where eq: "js_split sep s = seg # segs"
    using js_split_not_Nil [of sep s] by (cases "js_split sep s") auto
  show ?case
  proof (cases "ch = sep")
    case True
    with Cons eq show ?thesis by simp
  next
    case False
    with Cons eq show ?thesis by (cases segs) auto
  qed
qed

lemma js_split_no_sep: "sep \<notin> set (concat (js_split sep s))"
  by (induction s) (auto split: list.splits)

lemma length_js_split: "length (js_split sep s) = Suc (count_list s sep)"
  by (induction s) (auto split: list.splits simp: js_split_not_Nil)

text \<open>
  Claim C6. Normalising a string path is a literal split at every \<^verbatim>\<open>/\<close>, with no empty
  segment dropped: \<^verbatim>\<open>"a//b"\<close> gives \<^verbatim>\<open>["a", "", "b"]\<close> and \<^verbatim>\<open>"/a"\<close> gives \<^verbatim>\<open>["", "a"]\<close>; an
  array of segments passes through unchanged. For every string, joining the segments
  with \<^verbatim>\<open>/\<close> gives the string back, no segment contains a \<^verbatim>\<open>/\<close>, and there is one segment
  more than there are slashes.
\<close>

theorem pathAsSegments_literal_split:
  "pathAsSegments (Str ''a//b'') = [''a'', '''', ''b'']
   \<and> pathAsSegments (Str ''/a'') = ['''', ''a'']
   \<and> pathAsSegments (Segs segs) = segs
   \<and> join ''/'' (pathAsSegments (Str s)) = s
   \<and> CHR ''/'' \<notin> set (concat (pathAsSegments (Str s)))
   \<and> length (pathAsSegments (Str s)) = Suc (count_list s CHR ''/'')"
proof -
  have "js_split CHR ''/'' ''a//b'' = [''a'', [], ''b'']"
    and "js_split CHR ''/'' ''/a'' = [[], ''a'']"
    by simp_all
  moreover have "join ''/'' (js_split CHR ''/'' s) = s"
    by (rule join_js_split)
  moreover have "CHR ''/'' \<notin> set (concat (js_split CHR ''/'' s))"
    by (rule js_split_no_sep)
  moreover have "length (js_split CHR ''/'' s) = Suc (count_list s CHR ''/'')"
    by (rule length_js_split)
  ultimately show ?thesis
    unfolding pathAsSegments_def Path.case by blast
qed

subsection \<open>The root path\<close>

text \<open>
  Claim C10. Called with the empty array of segments, \<^verbatim>\<open>writeFile\<close>, \<^verbatim>\<open>createDirectory\<close>
  and \<^verbatim>\<open>remove\<close> each return \<^verbatim>\<open>true\<close> and leave the store as it was, in either error
  mode and for any content and options: \<^verbatim>\<open>writeFile\<close> reports success without creating
  a file or storing the content.
\<close>

theorem root_path_changes_nothing:
  "writeFile fs (Segs []) content options = (Inr True, fs)
   \<and> createDirectory fs (Segs []) options' = (Inr True, fs)
   \<and> remove fs (Segs []) = (Inr True, fs)"
  by (simp add: writeFile_def createDirectory_def remove_def pathAsSegments_def)

subsection \<open>Reading\<close>

text \<open>
  Claim C8. \<^verbatim>\<open>readDirectory\<close> and \<^verbatim>\<open>readFile\<close> never change the store: for every store,
  path and options the store after the call is the store before it, whether the call
  returns a value, returns \<^verbatim>\<open>null\<close> or raises.
\<close>

theorem reads_leave_store:
  "snd (readDirectory fs path options) = fs \<and> snd (readFile fs path options) = fs"
  by (simp add: readDirectory_def readFile_def
           split: sum.splits option.splits jsval.splits entry.splits)

subsection \<open>The root of the store\<close>

lemma createDirectory_loop_isDirectory:
  "isDirectory dir \<Longrightarrow> isDirectory (snd (createDirectory_loop pe rec dir path))"
  by (cases path; cases dir)
     (simp_all split: flow.splits prod.splits jsval.splits entry.splits)

lemma writeFile_loop_isDirectory:
  "isDirectory dir \<Longrightarrow> isDirectory (snd (writeFile_loop pe rec content dir path))"
  by (cases path; cases dir)
     (simp_all split: flow.splits prod.splits jsval.splits entry.splits)

lemma remove_loop_isDirectory:
  "isDirectory dir \<Longrightarrow> isDirectory (snd (remove_loop pe dir path))"
  by (cases path; cases dir)
     (simp_all split: flow.splits prod.splits jsval.splits entry.splits)

lemma perform_isDirectory:
  assumes "isDirectory (files fs)"
  shows "isDirectory (files (perform operation fs))"
proof (cases operation)
  case (CreateDirectory path options)
  with assms show ?thesis
    using createDirectory_loop_isDirectory
            [of "files fs" "preferErrors fs" "merged_recursive options" "pathAsSegments path"]
    by (auto simp: createDirectory_def split: prod.splits)
next
  case (ReadDirectory path options)
  with assms show ?thesis
    by (simp add: readDirectory_def
             split: sum.splits option.splits jsval.splits entry.splits)
next
  case (ReadFile path options)
  with assms show ?thesis
    by (simp add: readFile_def split: sum.splits option.splits jsval.splits entry.splits)
next
  case (WriteFile path content options)
  with assms show ?thesis
    using writeFile_loop_isDirectory
            [of "files fs" "preferErrors fs" "merged_recursive options" content
                "pathAsSegments path"]
    by (auto simp: writeFile_def split: prod.splits)
next
  case (Remove path)
  with assms show ?thesis
    using remove_loop_isDirectory [of "files fs" "preferErrors fs" "pathAsSegments path"]
    by (auto simp: remove_def split: prod.splits)
next
  case Walk
  with assms show ?thesis by (simp add: walk_files_def)
qed

lemma fold_perform_isDirectory:
  "isDirectory (files fs) \<Longrightarrow> isDirectory (files (fold perform operations fs))"
  by (induction operations arbitrary: fs) (simp_all add: perform_isDirectory)

text \<open>
  Claim C9. The root of the store is a \<^verbatim>\<open>Directory\<close> before and after every public
  operation: it is one in a new store and after any sequence of \<^verbatim>\<open>createDirectory\<close>,
  \<^verbatim>\<open>readDirectory\<close>, \<^verbatim>\<open>readFile\<close>, \<^verbatim>\<open>writeFile\<close>, \<^verbatim>\<open>remove\<close> and \<^verbatim>\<open>walk\<close> calls on it, and
  any such sequence started on any store whose root is a directory ends on a store
  whose root is a directory. No operation puts a file in the place of the root or
  removes the root.
\<close>

theorem root_remains_directory:
  "isDirectory (files (fold perform operations (new_MiniFS pe)))
   \<and> (isDirectory (files fs) \<longrightarrow> isDirectory (files (fold perform operations' fs)))"
proof (intro conjI impI)
  show "isDirectory (files (fold perform operations (new_MiniFS pe)))"
    by (rule fold_perform_isDirectory) (simp add: new_MiniFS_def)
next
  assume "isDirectory (files fs)"
  then show "isDirectory (files (fold perform operations' fs))"
    by (rule fold_perform_isDirectory)
qed

theorem root_remains_directory_witness:
  "isDirectory (files (new_MiniFS None :: (string, unit) MiniFS))
   \<and> isDirectory (files (fold perform
        [WriteFile (Str ''a/b.txt'') (Some (Value ''hello'')) None, Remove (Str ''a''),
         CreateDirectory (Str ''d'') None, ReadFile (Str ''d'') None, Walk]
        (new_MiniFS None :: (string, unit) MiniFS)))"
  using root_remains_directory
          [of "[]" None "new_MiniFS None :: (string, unit) MiniFS"
              "[WriteFile (Str ''a/b.txt'') (Some (Value ''hello'')) None, Remove (Str ''a''),
                CreateDirectory (Str ''d'') None, ReadFile (Str ''d'') None, Walk]"]
  by (simp add: new_MiniFS_def)

subsection \<open>createDirectory without recursive creation\<close>

text \<open>
  Claim C7. On a store whose root directory has no entry \<^verbatim>\<open>x\<close>, the call
  \<^verbatim>\<open>createDirectory("x/y", {recursive: false})\<close> fails: it returns \<^verbatim>\<open>false\<close>, or in
  prefer-errors mode raises the error that directory \<^verbatim>\<open>x\<close> does not exist. It does not
  create \<^verbatim>\<open>x\<close>: the store after the call is the store before it.
\<close>

theorem createDirectory_not_recursive_missing_parent:
  assumes "files fs = Directory n c d" and "map_of c ''x'' = None"
  shows "createDirectory fs (Str ''x/y'') (Some \<lparr>recursive = Given False\<rparr>)
         = (if preferErrors fs
            then Inl (Error ''MiniFS.createDirectory'' DoesNotExist ''x'')
            else Inr False,
            fs)"
proof -
  have "\<not> has_prop c ''x''"
    using assms(2) by (simp add: has_prop_def Object_prototype_def)
  then show ?thesis
    using assms(1)
    by (simp add: createDirectory_def pathAsSegments_def merged_recursive_def
                  createDirectory_missing_def)
qed

theorem createDirectory_not_recursive_missing_parent_witness:
  "files (new_MiniFS None :: (string, unit) MiniFS) = Directory None [] None
   \<and> map_of ([] :: (string, unit) DirectoryContent) ''x'' = None
   \<and> createDirectory (new_MiniFS None :: (string, unit) MiniFS) (Str ''x/y'')
        (Some \<lparr>recursive = Given False\<rparr>)
      = (Inr False, new_MiniFS None)"
  using createDirectory_not_recursive_missing_parent
          [of "new_MiniFS None :: (string, unit) MiniFS" None "[]" None]
  by (simp add: new_MiniFS_def)

subsection \<open>Paths that resolve to an entry\<close>

text \<open>
  When \<^verbatim>\<open>readEntry\<close> finds an entry at a path, every segment before the last names a
  directory, and the write and remove loops walk the same way down.
\<close>

lemma readEntry_loop_Cons_Ent:
  assumes "readEntry_loop pe w (Ent dir) (seg # path) = Inr (Some (Ent target))"
  obtains n c d where "dir = Directory n c d" and "has_prop c seg"
    and "readEntry_loop pe w (get_prop c seg) path = Inr (Some (Ent target))"
  using assms by (cases dir) (auto split: if_splits)

lemma readEntry_loop_value_Ent:
  assumes "readEntry_loop pe w v path = Inr (Some (Ent target))"
  shows "(path = [] \<and> v = Ent target) \<or> (path \<noteq> [] \<and> (\<exists>n c d. v = Ent (Directory n c d)))"
  using assms
  by (cases "(pe, w, v, path)" rule: readEntry_loop.cases) (auto split: if_splits)

lemma writeFile_loop_resolved:
  assumes "readEntry_loop pe w (Ent dir) path = Inr (Some (Ent target))"
    and "isDirectory dir"
  shows "writeFile_loop pe rec content dir path
         = (if isFile target
            then (if pe then Inl (Error ''MiniFS.writeFile'' IsAFile (last path)) else Inr False)
            else Inr True,
            dir)"
  using assms
proof (induction path arbitrary: dir)
  case Nil
  then show ?case by (cases dir) auto
next
  case (Cons seg path)
  from Cons.prems(1) obtain n c d where dir: "dir = Directory n c d" and has: "has_prop c seg"
    and rest: "readEntry_loop pe w (get_prop c seg) path = Inr (Some (Ent target))"
    by (rule readEntry_loop_Cons_Ent)
  from readEntry_loop_value_Ent [OF rest] show ?case
  proof (elim disjE conjE exE)
    assume "path = []" and v: "get_prop c seg = Ent target"
    then show ?thesis
      using dir has by (cases target) (simp_all add: leave_tree_def set_prop_same_value)
  next
    fix sn sc sd
    assume ne: "path \<noteq> []" and v: "get_prop c seg = Ent (Directory sn sc sd)"
    have "writeFile_loop pe rec content (Directory sn sc sd) path
          = (if isFile target
             then (if pe then Inl (Error ''MiniFS.writeFile'' IsAFile (last path)) else Inr False)
             else Inr True,
             Directory sn sc sd)"
      using rest v by (intro Cons.IH) simp_all
    then show ?thesis
      using dir has v ne by (simp add: set_prop_same_value)
  qed
qed




lemma remove_loop_file:
  assumes "readEntry_loop pe w (Ent dir) path = Inr (Some (Ent target))"
    and "path \<noteq> []" and "isFile target"
  shows "remove_loop pe dir path
         = (if pe then Inl (Error ''MiniFS.removeDirectory'' IsAFile (last path)) else Inr False,
            dir)"
  using assms
proof (induction path arbitrary: dir)
  case Nil
  then show ?case by simp
next
  case (Cons seg path)
  from Cons.prems(1) obtain n c d where dir: "dir = Directory n c d" and has: "has_prop c seg"
    and rest: "readEntry_loop pe w (get_prop c seg) path = Inr (Some (Ent target))"
    by (rule readEntry_loop_Cons_Ent)
  from readEntry_loop_value_Ent [OF rest] show ?case
  proof (elim disjE conjE exE)
    assume "path = []" and v: "get_prop c seg = Ent target"
    then show ?thesis
      using dir has Cons.prems(3) by (cases target) simp_all
  next
    fix sn sc sd
    assume ne: "path \<noteq> []" and v: "get_prop c seg = Ent (Directory sn sc sd)"
    have "remove_loop pe (Directory sn sc sd) path
          = (if pe then Inl (Error ''MiniFS.removeDirectory'' IsAFile (last path)) else Inr False,
             Directory sn sc sd)"
      using rest v ne Cons.prems(3) by (intro Cons.IH) simp_all
    then show ?thesis
      using dir has v ne by (simp add: set_prop_same_value)
  qed
qed

lemma remove_loop_directory:
  assumes "readEntry_loop pe w (Ent dir) path = Inr (Some (Ent target))"
    and "path \<noteq> []" and "isDirectory target"
  shows "fst (remove_loop pe dir path) = Inr True
         \<and> readEntry_loop pe' w' (Ent (snd (remove_loop pe dir path))) path \<noteq> Inr (Some (Ent e))
         \<and> (\<not> prefix q path \<and> \<not> prefix path q \<longrightarrow>
              readEntry_loop pe' w' (Ent (snd (remove_loop pe dir path))) q
              = readEntry_loop pe' w' (Ent dir) q)"
  using assms
proof (induction path arbitrary: dir q)
  case Nil
  then show ?case by simp
next
  case (Cons seg path)
  from Cons.prems(1) obtain n c d where dir: "dir = Directory n c d" and has: "has_prop c seg"
    and rest: "readEntry_loop pe w (get_prop c seg) path = Inr (Some (Ent target))"
    by (rule readEntry_loop_Cons_Ent)
  from readEntry_loop_value_Ent [OF rest] show ?case
  proof (elim disjE conjE exE)
    assume last: "path = []" and v: "get_prop c seg = Ent target"
    obtain tn tc td where target: "target = Directory tn tc td"
      using Cons.prems(3) by (cases target) simp_all
    have result: "remove_loop pe dir (seg # path) = (Inr True, Directory n (delete_prop c seg) d)"
      using dir has v last target by simp
    have gone: "readEntry_loop pe' w' (Ent (Directory n (delete_prop c seg) d)) [seg]
                \<noteq> Inr (Some (Ent e))"
      using get_prop_delete_same [of c seg e] by simp
    have frame: "readEntry_loop pe' w' (Ent (Directory n (delete_prop c seg) d)) q
                 = readEntry_loop pe' w' (Ent (Directory n c d)) q"
      if "\<not> prefix q [seg]" and "\<not> prefix [seg] q"
      using that
      by (cases q) (simp_all add: has_prop_delete_other get_prop_delete_other)
    show ?thesis
      using result gone frame last dir by simp
  next
    fix sn sc sd
    assume ne: "path \<noteq> []" and v: "get_prop c seg = Ent (Directory sn sc sd)"
    define sub where "sub = Directory sn sc sd"
    define sub' where "sub' = snd (remove_loop pe sub path)"
    have ih: "fst (remove_loop pe sub path) = Inr True
              \<and> readEntry_loop pe' w' (Ent sub') path \<noteq> Inr (Some (Ent e))
              \<and> (\<not> prefix q' path \<and> \<not> prefix path q' \<longrightarrow>
                   readEntry_loop pe' w' (Ent sub') q' = readEntry_loop pe' w' (Ent sub) q')"
      for q'
      unfolding sub'_def
      using rest v ne Cons.prems(3) by (intro Cons.IH) (simp_all add: sub_def)
    have result: "remove_loop pe dir (seg # path) = (Inr True, Directory n (set_prop c seg sub') d)"
      using dir has v ne ih [of "[]"]
      by (cases "remove_loop pe (Directory sn sc sd) path") (simp add: sub_def sub'_def)
    have gone: "readEntry_loop pe' w' (Ent (Directory n (set_prop c seg sub') d)) (seg # path)
                \<noteq> Inr (Some (Ent e))"
      using ih [of "[]"] by (simp add: has_prop_set_same get_prop_set_same)
    have frame: "readEntry_loop pe' w' (Ent (Directory n (set_prop c seg sub') d)) q
                 = readEntry_loop pe' w' (Ent (Directory n c d)) q"
      if "\<not> prefix q (seg # path)" and "\<not> prefix (seg # path) q"
    proof (cases q)
      case Nil
      with that show ?thesis by simp
    next
      case (Cons s q')
      show ?thesis
      proof (cases "s = seg")
        case True
        with that Cons have "\<not> prefix q' path" and "\<not> prefix path q'" by simp_all
        with ih [of q'] True Cons has v show ?thesis
          by (simp add: has_prop_set_same get_prop_set_same sub_def)
      next
        case False
        with Cons show ?thesis
          by (simp add: has_prop_set_other get_prop_set_other)
      qed
    qed
    show ?thesis
      using result gone frame dir by simp
  qed
qed


subsection \<open>Paths that do not resolve\<close>

lemma readEntry_loop_empty_directory:
  assumes "path \<noteq> []" and "last path \<notin> set Object_prototype"
  shows "readEntry_loop pe w (Ent (Directory n [] d)) path \<noteq> Inr (Some v)"
proof (cases path)
  case Nil
  with assms show ?thesis by simp
next
  case (Cons seg rest)
  with assms show ?thesis
    by (cases rest) (auto simp: has_prop_Nil get_prop_Nil)
qed

lemma writeFile_loop_creates:
  assumes "path \<noteq> []" and "last path \<notin> set Object_prototype"
    and "\<forall>v. readEntry_loop pe w (Ent dir) path \<noteq> Inr (Some v)"
    and "fst (writeFile_loop pe rec content dir path) = Inr True"
  shows "readEntry_loop pe' w' (Ent (snd (writeFile_loop pe rec content dir path))) path
         = Inr (Some (Ent (File (last path) content None)))"
  using assms
proof (induction path arbitrary: dir)
  case Nil
  then show ?case by simp
next
  case (Cons seg path)
  obtain n c d where dir: "dir = Directory n c d"
    using Cons.prems(4) by (cases dir) simp_all
  show ?case
  proof (cases "has_prop c seg")
    case False
    note missing = this
    have rec: rec
      using Cons.prems(4) dir missing
      by (auto simp: writeFile_missing_def split: if_splits)
    show ?thesis
    proof (cases "path = []")
      case True
      with dir missing rec show ?thesis
        by (simp add: writeFile_missing_def has_prop_set_same get_prop_set_same)
    next
      case False
      define c' where "c' = set_prop c seg (Directory None [] None)"
      define new where "new = (Directory None [] None :: ('a, 'b) entry)"
      have step: "writeFile_loop pe rec content dir (seg # path)
                  = (fst (writeFile_loop pe rec content new path),
                     Directory n (set_prop c' seg (snd (writeFile_loop pe rec content new path))) d)"
        using dir missing rec False
        by (cases "writeFile_loop pe rec content new path")
           (simp add: writeFile_missing_def get_prop_set_same c'_def new_def)
      have "readEntry_loop pe' w' (Ent (snd (writeFile_loop pe rec content new path))) path
            = Inr (Some (Ent (File (last path) content None)))"
      proof (rule Cons.IH)
        show "path \<noteq> []" by (rule False)
        show "last path \<notin> set Object_prototype"
          using Cons.prems(2) False by simp
        show "\<forall>v. readEntry_loop pe w (Ent new) path \<noteq> Inr (Some v)"
          unfolding new_def
          using readEntry_loop_empty_directory [OF False \<open>last path \<notin> set Object_prototype\<close>]
          by blast
        show "fst (writeFile_loop pe rec content new path) = Inr True"
          using Cons.prems(4) step by simp
      qed
      then show ?thesis
        using step False by (simp add: has_prop_set_same get_prop_set_same)
    qed
  next
    case True
    note present = this
    have unresolved: "\<forall>v. readEntry_loop pe w (get_prop c seg) path \<noteq> Inr (Some v)"
      using Cons.prems(3) dir present by simp
    then have ne: "path \<noteq> []"
      by auto
    show ?thesis
    proof (cases "get_prop c seg")
      case (Ent nextEntry)
      show ?thesis
      proof (cases nextEntry)
        case (File fn fc fd)
        with Cons.prems(4) dir present Ent show ?thesis
          by (simp split: if_splits)
      next
        case (Directory sn sc sd)
        have step: "writeFile_loop pe rec content dir (seg # path)
                    = (fst (writeFile_loop pe rec content nextEntry path),
                       Directory n (set_prop c seg (snd (writeFile_loop pe rec content nextEntry path))) d)"
          using dir present Ent Directory
          by (cases "writeFile_loop pe rec content nextEntry path") simp
        have "readEntry_loop pe' w' (Ent (snd (writeFile_loop pe rec content nextEntry path))) path
              = Inr (Some (Ent (File (last path) content None)))"
        proof (rule Cons.IH)
          show "path \<noteq> []" by (rule ne)
          show "last path \<notin> set Object_prototype"
            using Cons.prems(2) ne by simp
          show "\<forall>v. readEntry_loop pe w (Ent nextEntry) path \<noteq> Inr (Some v)"
            using unresolved Ent by simp
          show "fst (writeFile_loop pe rec content nextEntry path) = Inr True"
            using Cons.prems(4) step by simp
        qed
        then show ?thesis
          using step ne by (simp add: has_prop_set_same get_prop_set_same)
      qed
    next
      case (Proto k)
      with Cons.prems(4) dir present ne show ?thesis
        by (simp add: leave_tree_def)
    next
      case Undefined
      with Cons.prems(4) dir present ne show ?thesis
        by (simp add: leave_tree_def)
    qed
  qed
qed

subsection \<open>Evaluation on concrete stores\<close>

text \<open>The definitions a concrete call unfolds to.\<close>


lemmas store_eval =
  new_MiniFS_def new_MiniFS_cb_def writeFile_def createDirectory_def remove_def readEntry_def
  readDirectory_def readFile_def pathAsSegments_def path_text_def rootPath_def
  merged_recursive_def merged_returnEntry_def
  writeFile_missing_def createDirectory_missing_def leave_tree_def
  has_prop_def get_prop_def set_prop_def delete_prop_def Object_prototype_def
  Object_keys_def Object_entries_def array_index_def
  writeFile_cb_def writeFileWithCallback_def writeFile_private_def writeFile_private_missing_def

subsection \<open>writeFile on an existing entry\<close>

text \<open>
  The block for a missing segment is entered only when the segment is missing, so for
  the last segment it always creates the file (first lemma): its branch for an
  existing entry cannot run. When the path already names an entry, the block is never
  entered, in either variant. What remains is the \<^verbatim>\<open>instanceof File\<close> test, which makes
  the write fail on a file, and the end of the loop, which returns \<^verbatim>\<open>true\<close> on a
  directory. The store is the same afterwards in both cases.
\<close>


lemma writeFile_private_missing_creates:
  "\<not> has_prop c seg \<Longrightarrow>
   writeFile_private_missing pe callback True whole True c seg
   = Return (Inr True, set_prop c seg (callback_on callback (File seg None None)))"
  by (simp add: writeFile_private_missing_def)

lemma writeFile_private_loop_resolved:
  assumes "readEntry_loop pe w (Ent dir) path = Inr (Some (Ent target))"
    and "isDirectory dir"
  shows "writeFile_private_loop pe callback rec whole dir path
         = (if isFile target
            then (if pe then Inl (Error ''MiniFS._writeFile'' IsAFile (last path)) else Inr False)
            else Inr True,
            dir)"
  using assms
proof (induction path arbitrary: dir)
  case Nil
  then show ?case by (cases dir) auto
next
  case (Cons seg path)
  from Cons.prems(1) obtain n c d where dir: "dir = Directory n c d" and has: "has_prop c seg"
    and rest: "readEntry_loop pe w (get_prop c seg) path = Inr (Some (Ent target))"
    by (rule readEntry_loop_Cons_Ent)
  from readEntry_loop_value_Ent [OF rest] show ?case
  proof (elim disjE conjE exE)
    assume "path = []" and v: "get_prop c seg = Ent target"
    then show ?thesis
      using dir has by (cases target) (simp_all add: leave_tree_def set_prop_same_value)
  next
    fix sn sc sd
    assume ne: "path \<noteq> []" and v: "get_prop c seg = Ent (Directory sn sc sd)"
    have "writeFile_private_loop pe callback rec whole (Directory sn sc sd) path
          = (if isFile target
             then (if pe then Inl (Error ''MiniFS._writeFile'' IsAFile (last path)) else Inr False)
             else Inr True,
             Directory sn sc sd)"
      using rest v by (intro Cons.IH) simp_all
    then show ?thesis
      using dir has v ne by (simp add: set_prop_same_value)
  qed
qed

lemma writeFile_on_existing_entry:
  assumes "readEntry fs path = Inr (Some (Ent target))" and "isDirectory (files fs)"
  shows "writeFile fs path content options
         = (if isFile target
            then (if preferErrors fs
                  then Inl (Error ''MiniFS.writeFile'' IsAFile (last (pathAsSegments path)))
                  else Inr False)
            else Inr True,
            fs)"
  using writeFile_loop_resolved [OF assms [unfolded readEntry_def]]
  by (simp add: writeFile_def)

lemma writeFile_cb_on_existing_entry:
  assumes "readEntry fs path = Inr (Some (Ent target))" and "isDirectory (files fs)"
  shows "writeFile_cb fs path content options
         = (if isFile target
            then (if preferErrors fs
                  then Inl (Error ''MiniFS._writeFile'' IsAFile (last (pathAsSegments path)))
                  else Inr False)
            else Inr True,
            fs)"
  using writeFile_private_loop_resolved [OF assms [unfolded readEntry_def]]
  by (simp add: writeFile_cb_def writeFile_private_def)

lemma writeFileWithCallback_on_existing_entry:
  assumes "readEntry fs path = Inr (Some (Ent target))" and "isDirectory (files fs)"
  shows "writeFileWithCallback fs path callback options
         = (if isFile target
            then (if preferErrors fs
                  then Inl (Error ''MiniFS._writeFile'' IsAFile (last (pathAsSegments path)))
                  else Inr False)
            else Inr True,
            fs)"
  using writeFile_private_loop_resolved [OF assms [unfolded readEntry_def]]
  by (simp add: writeFileWithCallback_def writeFile_private_def)

subsection \<open>remove\<close>

text \<open>
  Claim C1, as the code has it. For every store and every path with at least one
  segment that names an entry (so every segment before the last names a directory):
  if the entry is a \<^verbatim>\<open>Directory\<close>, \<^verbatim>\<open>remove\<close> returns \<^verbatim>\<open>true\<close>, the path names no entry
  afterwards, and every path that neither leads to the removed entry nor passes
  through it reads as before; if the entry is a \<^verbatim>\<open>File\<close>, \<^verbatim>\<open>remove\<close> fails (it returns
  \<^verbatim>\<open>false\<close>, or in prefer-errors mode raises the error that the segment is a file) and
  the store is unchanged.
\<close>


theorem remove_detaches_directory_only:
  assumes "readEntry fs path = Inr (Some (Ent target))" and "pathAsSegments path \<noteq> []"
  shows "if isFile target
         then remove fs path
              = (if preferErrors fs
                 then Inl (Error ''MiniFS.removeDirectory'' IsAFile (last (pathAsSegments path)))
                 else Inr False,
                 fs)
         else fst (remove fs path) = Inr True
              \<and> (\<nexists>e. readEntry (snd (remove fs path)) path = Inr (Some (Ent e)))
              \<and> (\<not> prefix (pathAsSegments other) (pathAsSegments path)
                   \<and> \<not> prefix (pathAsSegments path) (pathAsSegments other)
                 \<longrightarrow> readEntry (snd (remove fs path)) other = readEntry fs other)"
proof (cases "isFile target")
  case True
  with remove_loop_file [OF assms [unfolded readEntry_def]] show ?thesis
    by (simp add: remove_def)
next
  case False
  then have target: "isDirectory target"
    by (cases target) simp_all
  note facts = remove_loop_directory [OF assms [unfolded readEntry_def] target]
  obtain r dir' where res: "remove_loop (preferErrors fs) (files fs) (pathAsSegments path) = (r, dir')"
    by (cases "remove_loop (preferErrors fs) (files fs) (pathAsSegments path)")
  have "r = Inr True"
    using facts [of "preferErrors fs" "pathAsSegments path" target "[]"] res by simp
  moreover have "readEntry_loop (preferErrors fs) (pathAsSegments path) (Ent dir') (pathAsSegments path)
                 \<noteq> Inr (Some (Ent e))" for e
    using facts [of "preferErrors fs" "pathAsSegments path" e "[]"] res by simp
  moreover have "readEntry_loop (preferErrors fs) (pathAsSegments other) (Ent dir') (pathAsSegments other)
                 = readEntry_loop (preferErrors fs) (pathAsSegments other) (Ent (files fs)) (pathAsSegments other)"
    if "\<not> prefix (pathAsSegments other) (pathAsSegments path)"
      and "\<not> prefix (pathAsSegments path) (pathAsSegments other)"
    using facts [of "preferErrors fs" "pathAsSegments other" target "pathAsSegments other"] res that
    by simp
  ultimately show ?thesis
    using False res by (simp add: remove_def readEntry_def)
qed

theorem remove_detaches_directory_only_witness:
  "readEntry
     (snd (createDirectory
             (snd (createDirectory (new_MiniFS None :: (string, unit) MiniFS) (Str ''foo/bar'') None))
             (Str ''foo/keep'') None))
     (Str ''foo/bar'')
   = Inr (Some (Ent (Directory None [] None)))
   \<and> pathAsSegments (Str ''foo/bar'') \<noteq> []
   \<and> \<not> prefix (pathAsSegments (Str ''foo/keep'')) (pathAsSegments (Str ''foo/bar''))
   \<and> \<not> prefix (pathAsSegments (Str ''foo/bar'')) (pathAsSegments (Str ''foo/keep''))
   \<and> remove
       (snd (createDirectory
               (snd (createDirectory (new_MiniFS None :: (string, unit) MiniFS) (Str ''foo/bar'') None))
               (Str ''foo/keep'') None))
       (Str ''foo/bar'')
     = (Inr True,
        \<lparr>files = Directory None [(''foo'', Directory None [(''keep'', Directory None [] None)] None)] None,
         preferErrors = False\<rparr>)
   \<and> readEntry
       \<lparr>files = Directory None [(''foo'', Directory None [(''keep'', Directory None [] None)] None)] None,
        preferErrors = False\<rparr>
       (Str ''foo/bar'')
     = (Inr None :: error + (string, unit) jsval option)
   \<and> readEntry
       \<lparr>files = Directory None [(''foo'', Directory None [(''keep'', Directory None [] None)] None)] None,
        preferErrors = False\<rparr>
       (Str ''foo/keep'')
     = (Inr (Some (Ent (Directory None [] None))) :: error + (string, unit) jsval option)"
  using remove_detaches_directory_only
          [of "snd (createDirectory
                     (snd (createDirectory (new_MiniFS None :: (string, unit) MiniFS)
                             (Str ''foo/bar'') None))
                     (Str ''foo/keep'') None)"
              "Str ''foo/bar''" "Directory None [] None" "Str ''foo/keep''"]
  by (simp add: store_eval)

text \<open>
  The claim as stated fails on a file: after \<^verbatim>\<open>writeFile(["f"], "c")\<close> on a new store
  the path names an existing entry, and \<^verbatim>\<open>remove(["f"])\<close> returns \<^verbatim>\<open>false\<close> and leaves the
  file in place.
\<close>


theorem remove_file_counterexample:
  "readEntry
     (snd (writeFile (new_MiniFS None :: (string, unit) MiniFS) (Segs [''f'']) (Some (Value ''c'')) None))
     (Segs [''f''])
   = Inr (Some (Ent (File ''f'' (Some (Value ''c'')) None)))
   \<and> remove
       (snd (writeFile (new_MiniFS None :: (string, unit) MiniFS) (Segs [''f'']) (Some (Value ''c'')) None))
       (Segs [''f''])
     = (Inr False,
        snd (writeFile (new_MiniFS None :: (string, unit) MiniFS) (Segs [''f'']) (Some (Value ''c'')) None))
   \<and> fst (remove
            (snd (writeFile (new_MiniFS None :: (string, unit) MiniFS) (Segs [''f'']) (Some (Value ''c'')) None))
            (Segs [''f'']))
     \<noteq> Inr True"
  by (simp add: store_eval)

subsection \<open>writeFile followed by readFile\<close>


lemma readEntry_loop_whole:
  "readEntry_loop pe w v path = Inr r \<Longrightarrow> readEntry_loop pe w' v path = Inr r"
  by (induction pe w v path rule: readEntry_loop.induct) (auto split: if_splits)

lemma not_inherited_has_prop:
  "k \<notin> set Object_prototype \<Longrightarrow> has_prop c k \<Longrightarrow> \<exists>e. get_prop c k = Ent e"
  by (auto simp: has_prop_def get_prop_def split: option.splits)

lemma writeFile_loop_succeeds:
  assumes "path \<noteq> []" and "set path \<inter> set Object_prototype = {}" and rec
    and "\<forall>k<length path. \<forall>e. readEntry_loop pe w (Ent dir) (take k path) = Inr (Some (Ent e))
           \<longrightarrow> isDirectory e"
    and "\<forall>v. readEntry_loop pe w (Ent dir) path \<noteq> Inr (Some v)"
  shows "fst (writeFile_loop pe rec content dir path) = Inr True"
  using assms(1,2,4,5)
proof (induction path arbitrary: dir)
  case Nil
  then show ?case by simp
next
  case (Cons seg path)
  have "isDirectory dir"
    using Cons.prems(3) by (auto dest: spec [of _ 0])
  then obtain n c d where dir: "dir = Directory n c d"
    by (cases dir) simp_all
  have seg: "seg \<notin> set Object_prototype"
    and clean: "set path \<inter> set Object_prototype = {}"
    using Cons.prems(2) by auto
  show ?case
  proof (cases "has_prop c seg")
    case False
    note missing = this
    show ?thesis
    proof (cases "path = []")
      case True
      with dir missing \<open>rec\<close> show ?thesis
        by (simp add: writeFile_missing_def)
    next
      case False
      define new where "new = (Directory None [] None :: ('a, 'b) entry)"
      have "fst (writeFile_loop pe rec content new path) = Inr True"
      proof (rule Cons.IH)
        show "path \<noteq> []" by (rule False)
        show "set path \<inter> set Object_prototype = {}" by (rule clean)
        show "\<forall>k<length path. \<forall>e. readEntry_loop pe w (Ent new) (take k path) = Inr (Some (Ent e))
                \<longrightarrow> isDirectory e"
        proof (intro allI impI)
          fix k e
          assume "k < length path"
            and "readEntry_loop pe w (Ent new) (take k path) = Inr (Some (Ent e))"
          then show "isDirectory e"
            using clean
            by (cases k; cases path) (auto simp: new_def has_prop_Nil split: if_splits)
        qed
        show "\<forall>v. readEntry_loop pe w (Ent new) path \<noteq> Inr (Some v)"
          using clean False
          by (cases path) (auto simp: new_def has_prop_Nil split: if_splits)
      qed
      then show ?thesis
        using dir missing \<open>rec\<close> False
        by (cases "writeFile_loop pe rec content new path")
           (simp add: writeFile_missing_def get_prop_set_same new_def)
    qed
  next
    case True
    note present = this
    then obtain e where v: "get_prop c seg = Ent e"
      using not_inherited_has_prop [OF seg] by blast
    have unresolved: "\<forall>v. readEntry_loop pe w (Ent e) path \<noteq> Inr (Some v)"
      using Cons.prems(4) dir present v by simp
    then have ne: "path \<noteq> []"
      by auto
    have prefixes: "\<forall>k<length path. \<forall>e'. readEntry_loop pe w (Ent e) (take k path) = Inr (Some (Ent e'))
                      \<longrightarrow> isDirectory e'"
    proof (intro allI impI)
      fix k e'
      assume "k < length path"
        and "readEntry_loop pe w (Ent e) (take k path) = Inr (Some (Ent e'))"
      then show "isDirectory e'"
        using Cons.prems(3) dir present v
        by (auto dest!: spec [of _ "Suc k"])
    qed
    have "fst (writeFile_loop pe rec content e path) = Inr True"
      using ne clean prefixes unresolved by (rule Cons.IH)
    moreover have "isDirectory e"
      using prefixes ne by (auto dest: spec [of _ 0])
    ultimately show ?thesis
      using dir present v
      by (cases e; cases "writeFile_loop pe rec content e path") simp_all
  qed
qed

text \<open>
  Claim C5, as the code has it. For every store, every content that is neither
  \<^verbatim>\<open>undefined\<close> nor \<^verbatim>\<open>null\<close>, and every path with at least one segment, none of
  whose segments is the name of a property of \<^verbatim>\<open>Object.prototype\<close>: if recursive creation is on (the default), every proper prefix
  of the path that names an entry names a directory, and the path itself names
  nothing, then \<^verbatim>\<open>writeFile\<close> returns \<^verbatim>\<open>true\<close> and \<^verbatim>\<open>readFile\<close> of the same path right
  afterwards returns exactly the content written.
\<close>

theorem writeFile_then_readFile:
  assumes "\<not> loosely_undefined content"
    and "pathAsSegments path \<noteq> []"
    and "set (pathAsSegments path) \<inter> set Object_prototype = {}"
    and "merged_recursive options"
    and "\<forall>k<length (pathAsSegments path). \<forall>e.
           readEntry fs (Segs (take k (pathAsSegments path))) = Inr (Some (Ent e)) \<longrightarrow> isDirectory e"
    and "\<forall>v. readEntry fs path \<noteq> Inr (Some v)"
  shows "fst (writeFile fs path content options) = Inr True
         \<and> fst (readFile (snd (writeFile fs path content options)) path None)
           = Inr (Some (Content content))"
proof -
  define segs where "segs = pathAsSegments path"
  define pe where "pe = preferErrors fs"
  define rec where "rec = merged_recursive options"
  obtain r dir' where res: "writeFile_loop pe rec content (files fs) segs = (r, dir')"
    by (cases "writeFile_loop pe rec content (files fs) segs")
  have prefixes: "\<forall>k<length segs. \<forall>e.
      readEntry_loop pe segs (Ent (files fs)) (take k segs) = Inr (Some (Ent e)) \<longrightarrow> isDirectory e"
  proof (intro allI impI)
    fix k e
    assume "k < length segs"
      and "readEntry_loop pe segs (Ent (files fs)) (take k segs) = Inr (Some (Ent e))"
    then show "isDirectory e"
      using assms(5) readEntry_loop_whole [of pe segs "Ent (files fs)" "take k segs" "Some (Ent e)" "take k segs"]
      by (simp add: readEntry_def pathAsSegments_def segs_def pe_def)
  qed
  have unresolved: "\<forall>v. readEntry_loop pe segs (Ent (files fs)) segs \<noteq> Inr (Some v)"
    using assms(6) by (simp add: readEntry_def segs_def pe_def)
  have last: "last segs \<notin> set Object_prototype"
    using assms(3) last_in_set [OF assms(2)] unfolding segs_def by blast
  have "fst (writeFile_loop pe rec content (files fs) segs) = Inr True"
    using assms(2,3,4) prefixes unresolved
    by (intro writeFile_loop_succeeds [where w = segs]) (simp_all add: segs_def rec_def)
  moreover from this
  have "readEntry_loop pe segs (Ent (snd (writeFile_loop pe rec content (files fs) segs))) segs
        = Inr (Some (Ent (File (last segs) content None)))"
    using assms(2) last unresolved
    by (intro writeFile_loop_creates [where w = segs]) (simp_all add: segs_def)
  ultimately show ?thesis
    using res assms(1)
    by (simp add: readFile_def readEntry_def writeFile_def merged_returnEntry_def
                  segs_def [symmetric] pe_def [symmetric] rec_def [symmetric])
qed

theorem writeFile_then_readFile_witness:
  "\<not> loosely_undefined (Some (Value ''hello''))
   \<and> pathAsSegments (Str ''a/b.txt'') \<noteq> []
   \<and> set (pathAsSegments (Str ''a/b.txt'')) \<inter> set Object_prototype = {}
   \<and> merged_recursive None
   \<and> readEntry (new_MiniFS None :: (string, unit) MiniFS) (Segs [])
     = Inr (Some (Ent (Directory None [] None)))
   \<and> readEntry (new_MiniFS None :: (string, unit) MiniFS) (Segs [''a'']) = Inr None
   \<and> readEntry (new_MiniFS None :: (string, unit) MiniFS) (Str ''a/b.txt'') = Inr None
   \<and> fst (writeFile (new_MiniFS None :: (string, unit) MiniFS) (Str ''a/b.txt'') (Some (Value ''hello'')) None)
     = Inr True
   \<and> fst (readFile
            (snd (writeFile (new_MiniFS None :: (string, unit) MiniFS) (Str ''a/b.txt'')
                    (Some (Value ''hello'')) None))
            (Str ''a/b.txt'') None)
     = Inr (Some (Content (Some (Value ''hello''))))"
  using writeFile_then_readFile
          [of "Some (Value ''hello'')" "Str ''a/b.txt''" None
              "new_MiniFS None :: (string, unit) MiniFS"]
  by (simp add: store_eval less_Suc_eq)

text \<open>
  The claim as stated, for every path and content, fails in each of these ways:
  the path runs through a file (the write fails and nothing is read); the path is the
  root path (the write returns \<^verbatim>\<open>true\<close> and nothing is read); the content is \<^verbatim>\<open>undefined\<close>
  or \<^verbatim>\<open>null\<close> (the read raises in prefer-errors mode); the last segment is the name of an inherited
  property (the write returns \<^verbatim>\<open>true\<close>, no file exists); recursive creation is off and
  the parent is missing.
\<close>

theorem writeFile_then_readFile_counterexample:
  "fst (writeFile
          (snd (writeFile (new_MiniFS None :: (string, unit) MiniFS) (Str ''a'') (Some (Value ''x'')) None))
          (Str ''a/b'') (Some (Value ''c'')) None)
   = Inr False
   \<and> fst (readFile
            (snd (writeFile
                    (snd (writeFile (new_MiniFS None :: (string, unit) MiniFS) (Str ''a'')
                            (Some (Value ''x'')) None))
                    (Str ''a/b'') (Some (Value ''c'')) None))
            (Str ''a/b'') None)
     = Inr None
   \<and> fst (writeFile (new_MiniFS None :: (string, unit) MiniFS) rootPath (Some (Value ''c'')) None)
     = Inr True
   \<and> fst (readFile
            (snd (writeFile (new_MiniFS None :: (string, unit) MiniFS) rootPath (Some (Value ''c'')) None))
            rootPath None)
     = Inr None
   \<and> fst (writeFile (new_MiniFS (Some True) :: (string, unit) MiniFS) (Str ''f'') None None)
     = Inr True
   \<and> fst (readFile
            (snd (writeFile (new_MiniFS (Some True) :: (string, unit) MiniFS) (Str ''f'') None None))
            (Str ''f'') None)
     = Inl (Error ''MiniFS.readFile'' HasNoContent ''f'')
   \<and> fst (writeFile (new_MiniFS (Some True) :: (string, unit) MiniFS) (Str ''f'') (Some Null) None)
     = Inr True
   \<and> fst (readFile
            (snd (writeFile (new_MiniFS (Some True) :: (string, unit) MiniFS) (Str ''f'') (Some Null)
                    None))
            (Str ''f'') None)
     = Inl (Error ''MiniFS.readFile'' HasNoContent ''f'')
   \<and> fst (writeFile (new_MiniFS None :: (string, unit) MiniFS) (Str ''toString'') (Some (Value ''c'')) None)
     = Inr True
   \<and> fst (readFile
            (snd (writeFile (new_MiniFS None :: (string, unit) MiniFS) (Str ''toString'')
                    (Some (Value ''c'')) None))
            (Str ''toString'') None)
     = Inr None
   \<and> fst (writeFile (new_MiniFS None :: (string, unit) MiniFS) (Str ''x/y'') (Some (Value ''c''))
            (Some \<lparr>recursive = Given False\<rparr>))
     = Inr False
   \<and> fst (readFile
            (snd (writeFile (new_MiniFS None :: (string, unit) MiniFS) (Str ''x/y'') (Some (Value ''c''))
                    (Some \<lparr>recursive = Given False\<rparr>)))
            (Str ''x/y'') None)
     = Inr None"
  by (simp add: store_eval)

subsection \<open>Listing after a write\<close>

text \<open>
  Claim C4, as the code has it. On a new store, in either error mode and for any
  content, \<^verbatim>\<open>writeFile("a/b.txt", c)\<close> returns \<^verbatim>\<open>true\<close>; afterwards \<^verbatim>\<open>readDirectory\<close> of
  \<^verbatim>\<open>rootPath\<close> (the empty array of segments) returns \<^verbatim>\<open>["a"]\<close> and \<^verbatim>\<open>readDirectory("a")\<close>
  returns \<^verbatim>\<open>["b.txt"]\<close>. The string \<^verbatim>\<open>""\<close> is not the root path: it normalises to the one
  segment \<^verbatim>\<open>""\<close>, no entry of that name exists, and \<^verbatim>\<open>readDirectory("")\<close> returns \<^verbatim>\<open>null\<close>,
  or in prefer-errors mode raises the error that the segment does not exist.
\<close>

theorem readDirectory_after_writeFile:
  "fst (writeFile (new_MiniFS pe) (Str ''a/b.txt'') content None) = Inr True
   \<and> fst (readDirectory (snd (writeFile (new_MiniFS pe) (Str ''a/b.txt'') content None))
            rootPath None)
     = Inr (Some (Names [''a'']))
   \<and> fst (readDirectory (snd (writeFile (new_MiniFS pe) (Str ''a/b.txt'') content None))
            (Str ''a'') None)
     = Inr (Some (Names [''b.txt'']))
   \<and> fst (readDirectory (snd (writeFile (new_MiniFS pe) (Str ''a/b.txt'') content None))
            (Str '''') None)
     = (if preferErrors (new_MiniFS pe)
        then Inl (Error ''MiniFS.readEntry'' DoesNotExist '''')
        else Inr None)"
  by (simp add: store_eval)

text \<open>
  The claim as stated fails at the string \<^verbatim>\<open>""\<close>: after the write, \<^verbatim>\<open>readDirectory("")\<close>
  on a store in sentinel mode returns \<^verbatim>\<open>null\<close>, not \<^verbatim>\<open>["a"]\<close>.
\<close>

theorem readDirectory_empty_string_counterexample:
  "fst (writeFile (new_MiniFS None :: (string, unit) MiniFS) (Str ''a/b.txt'') (Some (Value ''c'')) None)
   = Inr True
   \<and> fst (readDirectory
            (snd (writeFile (new_MiniFS None :: (string, unit) MiniFS) (Str ''a/b.txt'')
                    (Some (Value ''c'')) None))
            (Str '''') None)
     = Inr None
   \<and> fst (readDirectory
            (snd (writeFile (new_MiniFS None :: (string, unit) MiniFS) (Str ''a/b.txt'')
                    (Some (Value ''c'')) None))
            (Str '''') None)
     \<noteq> Inr (Some (Names [''a'']))"
  by (simp add: store_eval)

subsection \<open>Writing to a path that names an entry\<close>

text \<open>
  Claim C2, evaluated. A second \<^verbatim>\<open>writeFile\<close> to the file \<^verbatim>\<open>f\<close> does not replace its
  content: in \<^verbatim>\<open>src/index.ts\<close> it returns \<^verbatim>\<open>false\<close> (in prefer-errors mode it raises the
  error that \<^verbatim>\<open>f\<close> is a file), and in the callback variant \<^verbatim>\<open>writeFile\<close> and
  \<^verbatim>\<open>writeFileWithCallback\<close> return \<^verbatim>\<open>false\<close> without running the callback. The file keeps
  its old content and data.
\<close>

theorem writeFile_existing_file_evaluated:
  "writeFile
     (snd (writeFile (new_MiniFS None :: (string, unit) MiniFS) (Str ''f'') (Some (Value ''old'')) None))
     (Str ''f'') (Some (Value ''new'')) None
   = (Inr False,
      \<lparr>files = Directory None [(''f'', File ''f'' (Some (Value ''old'')) None)] None,
       preferErrors = False\<rparr>)
   \<and> writeFile
       (snd (writeFile (new_MiniFS (Some True) :: (string, unit) MiniFS) (Str ''f'') (Some (Value ''old''))
               None))
       (Str ''f'') (Some (Value ''new'')) None
     = (Inl (Error ''MiniFS.writeFile'' IsAFile ''f''),
        \<lparr>files = Directory None [(''f'', File ''f'' (Some (Value ''old'')) None)] None,
         preferErrors = True\<rparr>)
   \<and> writeFile_cb
       (snd (writeFile_cb (new_MiniFS_cb None :: (string, unit) MiniFS) (Str ''f'') (Some (Value ''old''))
               None))
       (Str ''f'') (Some (Value ''new'')) None
     = (Inr False,
        \<lparr>files = Directory (Some '''') [(''f'', File ''f'' (Some (Value ''old'')) None)] None,
         preferErrors = False\<rparr>)
   \<and> writeFileWithCallback
       (snd (writeFile_cb (new_MiniFS_cb None :: (string, unit) MiniFS) (Str ''f'') (Some (Value ''old''))
               None))
       (Str ''f'') (\<lambda>(n, fc, d). (n, Some (Value ''new''), Some ())) None
     = (Inr False,
        \<lparr>files = Directory (Some '''') [(''f'', File ''f'' (Some (Value ''old'')) None)] None,
         preferErrors = False\<rparr>)"
  by (simp add: store_eval)

text \<open>
  Claim C3, evaluated. \<^verbatim>\<open>writeFile\<close> to the existing directory \<^verbatim>\<open>d\<close> does not fail: it
  returns \<^verbatim>\<open>true\<close>, in both error modes and in both variants, and the store is unchanged.
\<close>

theorem writeFile_existing_directory_evaluated:
  "writeFile
     (snd (createDirectory (new_MiniFS None :: (string, unit) MiniFS) (Str ''d'') None))
     (Str ''d'') (Some (Value ''new'')) None
   = (Inr True,
      \<lparr>files = Directory None [(''d'', Directory None [] None)] None, preferErrors = False\<rparr>)
   \<and> writeFile
       (snd (createDirectory (new_MiniFS (Some True) :: (string, unit) MiniFS) (Str ''d'') None))
       (Str ''d'') (Some (Value ''new'')) None
     = (Inr True,
        \<lparr>files = Directory None [(''d'', Directory None [] None)] None, preferErrors = True\<rparr>)
   \<and> writeFile_cb
       (snd (writeFile_cb (new_MiniFS_cb None :: (string, unit) MiniFS) (Str ''d/f'') (Some (Value ''old''))
               None))
       (Str ''d'') (Some (Value ''new'')) None
     = (Inr True,
        \<lparr>files = Directory (Some '''')
                  [(''d'', Directory (Some ''d'') [(''f'', File ''f'' (Some (Value ''old'')) None)] None)]
                  None,
         preferErrors = False\<rparr>)
   \<and> writeFile_cb
       (snd (writeFile_cb (new_MiniFS_cb (Some True) :: (string, unit) MiniFS) (Str ''d/f'')
               (Some (Value ''old'')) None))
       (Str ''d'') (Some (Value ''new'')) None
     = (Inr True,
        \<lparr>files = Directory (Some '''')
                  [(''d'', Directory (Some ''d'') [(''f'', File ''f'' (Some (Value ''old'')) None)] None)]
                  None,
         preferErrors = True\<rparr>)"
  by (simp add: store_eval)

end
